theory Spec2Isabelle
  imports Main "HOL-Library.Sublist"
begin

section \<open>Python strings\<close>

text \<open>
  A Python \<open>str\<close> is modelled as a \<open>string\<close> whose characters are read as the code
  points U+0000 .. U+00FF. On this range \<open>str.lower\<close> maps A-Z and the Latin-1 capitals
  (U+00C0 .. U+00DE without U+00D7) to the code point 32 above, and \<open>str.strip()\<close> removes
  the characters for which \<open>str.isspace\<close> holds.
\<close>

definition lower_char :: "char \<Rightarrow> char" where
  "lower_char c =
     (let n = (of_char c :: nat)
      in if (65 \<le> n \<and> n \<le> 90) \<or> (192 \<le> n \<and> n \<le> 222 \<and> n \<noteq> 215)
         then char_of (n + 32) else c)"

definition lower :: "string \<Rightarrow> string" where
  "lower s = map lower_char s"

definition isspace :: "char \<Rightarrow> bool" where
  "isspace c =
     (let n = (of_char c :: nat)
      in (9 \<le> n \<and> n \<le> 13) \<or> (28 \<le> n \<and> n \<le> 32) \<or> n = 133 \<or> n = 160)"

definition lstrip :: "string \<Rightarrow> string" where
  "lstrip s = dropWhile isspace s"

definition rstrip :: "string \<Rightarrow> string" where
  "rstrip s = rev (dropWhile isspace (rev s))"

definition strip :: "string \<Rightarrow> string" where
  "strip s = rstrip (lstrip s)"

text \<open>\<open>s.startswith(p)\<close>.\<close>

fun startswith :: "string \<Rightarrow> string \<Rightarrow> bool" where
  "startswith s [] = True"
| "startswith [] (c # p) = False"
| "startswith (d # s) (c # p) = (d = c \<and> startswith s p)"

text \<open>
  \<open>s.find(sub)\<close> as the text before and after the first occurrence of \<open>sub\<close>, or
  \<open>None\<close> where Python returns \<open>-1\<close>. It gives \<open>sub in s\<close> and, for a non-empty
  separator that occurs, \<open>s.split(sub, 1)[0]\<close>.
\<close>

fun find_first :: "string \<Rightarrow> string \<Rightarrow> (string \<times> string) option" where
  "find_first sub [] = (if sub = [] then Some ([], []) else None)"
| "find_first sub (c # s) =
     (if startswith (c # s) sub then Some ([], drop (length sub) (c # s))
      else (case find_first sub s of
              None \<Rightarrow> None
            | Some (before, after) \<Rightarrow> Some (c # before, after)))"

definition contains :: "string \<Rightarrow> string \<Rightarrow> bool" where
  \<comment> \<open>\<open>contains sub s\<close> is Python's \<open>sub in s\<close>\<close>
  "contains sub s = (find_first sub s \<noteq> None)"

definition before_first :: "string \<Rightarrow> string \<Rightarrow> string" where
  \<comment> \<open>\<open>s.split(sub, 1)[0]\<close>; the whole of \<open>s\<close> when \<open>sub\<close> does not occur\<close>
  "before_first sub s = (case find_first sub s of None \<Rightarrow> s | Some (before, after) \<Rightarrow> before)"

text \<open>\<open>s.split(c)\<close> for a one-character separator.\<close>

fun split_char :: "char \<Rightarrow> string \<Rightarrow> string list" where
  "split_char c [] = [[]]"
| "split_char c (d # s) =
     (if d = c then [] # split_char c s
      else (case split_char c s of
              [] \<Rightarrow> [[d]]
            | x # xs \<Rightarrow> (d # x) # xs))"

text \<open>\<open>str(n)\<close> for a non-negative integer: decimal digits, no leading zero.\<close>

definition digit_char :: "nat \<Rightarrow> char" where
  "digit_char d = char_of (48 + d)"

fun str_nat :: "nat \<Rightarrow> string" where
  "str_nat n = (if n < 10 then [digit_char n] else str_nat (n div 10) @ [digit_char (n mod 10)])"

declare str_nat.simps [simp del]

text \<open>Reading a decimal numeral back; used to show that \<open>str_nat\<close> is injective.\<close>

definition digit_val :: "char \<Rightarrow> nat" where
  "digit_val c = of_char c - 48"

definition nat_of_str :: "string \<Rightarrow> nat" where
  "nat_of_str s = foldl (\<lambda>a c. 10 * a + digit_val c) 0 s"

section \<open>Completion markers\<close>

text \<open>
  \<open>unique_end_marker = f"__END_OF_COMMAND_OUTPUT_{time.time_ns()}_{os.getpid()}__"\<close>
  The two arguments are the reading of \<open>time.time_ns()\<close> and the value of \<open>os.getpid()\<close>.
\<close>

definition unique_end_marker :: "nat \<Rightarrow> nat \<Rightarrow> string" where
  "unique_end_marker t p =
     ''__END_OF_COMMAND_OUTPUT_'' @ str_nat t @ ''_'' @ str_nat p @ ''__''"

definition init_marker :: "nat \<Rightarrow> string" where
  "init_marker t = ''__INIT_MARKER_'' @ str_nat t @ ''__''"

definition recovery_marker :: "string \<Rightarrow> string" where
  "recovery_marker m = m @ ''_timeout_recovery''"

section \<open>Locating the interpreter\<close>

text \<open>
  What \<open>_find_bash\<close> reads from the host: the environment variable \<open>BASH_EXEC_PATH\<close>,
  \<open>os.path.exists\<close>, \<open>os.access(path, os.X_OK)\<close>, \<open>sys.platform == "win32"\<close>, the outcome of
  \<open>subprocess.run(['where' | 'which', 'bash'])\<close> (not found, or return code and standard
  output) and the outcome of \<open>subprocess.run(['bash', '--version'], timeout=2)\<close>.
\<close>

datatype locate_result = Locate_missing | Locate_ran int string

datatype probe_result = Probe_missing | Probe_timeout | Probe_ran int

record host =
  bash_exec_path :: "string option"
  path_exists :: "string \<Rightarrow> bool"
  path_executable :: "string \<Rightarrow> bool"
  win32 :: bool
  locate :: locate_result
  probe :: probe_result

definition backslash :: char where
  "backslash = CHR 0x5C"

fun win_path :: "string list \<Rightarrow> string" where
  "win_path [] = []"
| "win_path [x] = x"
| "win_path (x # y # ys) = x @ backslash # win_path (y # ys)"

definition win_known_paths :: "string list" where
  "win_known_paths =
     [win_path [''C:'', ''Program Files'', ''Git'', ''bin'', ''bash.exe''],
      win_path [''C:'', ''Program Files (x86)'', ''Git'', ''bin'', ''bash.exe''],
      win_path [''C:'', ''Program Files'', ''Git'', ''usr'', ''bin'', ''bash.exe''],
      win_path [''C:'', ''Windows'', ''System32'', ''bash.exe'']]"

definition unix_known_paths :: "string list" where
  "unix_known_paths = [''/bin/bash'', ''/usr/bin/bash'', ''/usr/local/bin/bash'']"

definition is_git_bash :: "string \<Rightarrow> bool" where
  "is_git_bash p =
     (contains (win_path [''Git'', ''bin'', ''bash.exe'']) p \<or>
      contains (win_path [''Git'', ''usr'', ''bin'', ''bash.exe'']) p)"

definition insert_front :: "string \<Rightarrow> string list \<Rightarrow> string list" where
  \<comment> \<open>\<open>if p not in bash_paths: bash_paths.insert(0, p)\<close>\<close>
  "insert_front p bash_paths = (if p \<in> set bash_paths then bash_paths else p # bash_paths)"

definition append_new :: "string \<Rightarrow> string list \<Rightarrow> string list" where
  \<comment> \<open>\<open>if p not in bash_paths: bash_paths.append(p)\<close>\<close>
  "append_new p bash_paths = (if p \<in> set bash_paths then bash_paths else bash_paths @ [p])"

definition bash_paths_win :: "locate_result \<Rightarrow> string list" where
  "bash_paths_win lr =
     (case lr of
        Locate_missing \<Rightarrow> win_known_paths
      | Locate_ran rc out \<Rightarrow>
          if rc = 0 \<and> out \<noteq> [] then
            (let found_paths = split_char CHR 0x0A (strip out);
                 git_bash_paths = filter is_git_bash found_paths
             in if git_bash_paths \<noteq> [] then fold insert_front git_bash_paths win_known_paths
                else fold append_new found_paths win_known_paths)
          else win_known_paths)"

definition bash_paths_unix :: "locate_result \<Rightarrow> string list" where
  "bash_paths_unix lr =
     (case lr of
        Locate_missing \<Rightarrow> unix_known_paths
      | Locate_ran rc out \<Rightarrow>
          if rc = 0 \<and> out \<noteq> [] then insert_front (strip out) unix_known_paths
          else unix_known_paths)"

definition usable :: "host \<Rightarrow> string \<Rightarrow> bool" where
  \<comment> \<open>\<open>path and os.path.exists(path) and os.access(path, os.X_OK)\<close>\<close>
  "usable h path = (path \<noteq> [] \<and> path_exists h path \<and> path_executable h path)"

definition last_resort :: "host \<Rightarrow> string option" where
  "last_resort h =
     (case probe h of
        Probe_ran rc \<Rightarrow> if rc = 0 then Some ''bash'' else None
      | Probe_missing \<Rightarrow> None
      | Probe_timeout \<Rightarrow> None)"

definition find_bash :: "host \<Rightarrow> string option" where
  "find_bash h =
     (let env_bash = bash_exec_path h
      in if (case env_bash of None \<Rightarrow> False | Some e \<Rightarrow> e \<noteq> [] \<and> path_exists h e)
         then env_bash
         else
           (let bash_paths = (if win32 h then bash_paths_win (locate h)
                              else bash_paths_unix (locate h))
            in case find (usable h) (map strip bash_paths) of
                 Some path \<Rightarrow> Some path
               | None \<Rightarrow> last_resort h))"








section \<open>The subprocess and the world around the tool\<close>

text \<open>
  The shell subprocess is the environment of the program. Its future is part of the state:
  \<^item> \<open>returncode\<close> is what \<open>Popen.poll()\<close> returns (\<open>None\<close> while the process runs);
  \<^item> \<open>stdin_closed\<close> is \<open>stdin.closed\<close>; writing to a closed stream raises \<open>ValueError\<close>;
  \<^item> \<open>stdin_budget\<close> is the number of further writes the pipe accepts before it is broken
    and a write raises \<open>OSError\<close> (\<open>None\<close>: it never breaks);
  \<^item> \<open>exit_wait_ok\<close>, \<open>term_wait_ok\<close> and \<open>kill_wait_ok\<close> say whether \<open>wait(timeout=...)\<close>
    returns after the exit directive, after \<open>terminate()\<close> and after \<open>kill()\<close> (otherwise it
    raises \<open>TimeoutExpired\<close>); \<open>terminate_raises\<close> says whether \<open>terminate()\<close> raises
    \<open>OSError\<close>; \<open>kill()\<close> is taken not to raise;
  \<^item> \<open>feeds\<close> holds, for each polling loop that is still to run on this session, the
    outcomes of its calls \<open>output_queue.get(timeout=0.1)\<close> up to the loop's wall-clock
    deadline: a queued line with its stream tag, \<open>queue.Empty\<close> together with what
    \<open>poll()\<close> returns at that moment, or another exception. A loop whose list is used up
    has reached its deadline.
\<close>

datatype stream_name = STDOUT | STDERR

datatype poll_event =
    Got stream_name string
  | Empty "int option"
  | Get_raised

datatype exn = OSError | ValueError | TimeoutExpired

record popen =
  pid :: nat
  returncode :: "int option"
  stdin_closed :: bool
  stdin_budget :: "nat option"
  exit_wait_ok :: bool
  terminate_raises :: bool
  term_wait_ok :: bool
  kill_wait_ok :: bool
  feeds :: "poll_event list list"

text \<open>What the tool does to subprocesses, in order.\<close>

datatype action =
    Spawn nat string
  | Write nat string
  | Close_stdin nat
  | Wait nat nat
  | Terminate nat
  | Kill nat

text \<open>
  \<open>clock\<close> gives the successive readings of \<open>time.time_ns()\<close>, \<open>clock_reads\<close> counts the
  readings taken. \<open>spawns\<close> lists the outcomes of the calls of \<open>subprocess.Popen\<close> still to
  come: a new process, or \<open>None\<close> when the call raises (as it does when the list is used up).
\<close>

record world =
  host_env :: host
  getpid :: nat
  clock :: "nat \<Rightarrow> nat"
  clock_reads :: nat
  spawns :: "popen option list"
  bash_process :: "popen option"
  trace :: "action list"

definition time_ns :: "world \<Rightarrow> nat \<times> world" where
  "time_ns w = (clock w (clock_reads w), w\<lparr>clock_reads := Suc (clock_reads w)\<rparr>)"

definition running :: "world \<Rightarrow> bool" where
  \<comment> \<open>\<open>self.bash_process and self.bash_process.poll() is None\<close>\<close>
  "running w = (case bash_process w of None \<Rightarrow> False | Some p \<Rightarrow> returncode p = None)"

definition stdin_write :: "popen \<Rightarrow> exn + popen" where
  \<comment> \<open>\<open>stdin.write(text); stdin.flush()\<close>\<close>
  "stdin_write p =
     (if stdin_closed p then Inl ValueError
      else (case stdin_budget p of
              None \<Rightarrow> Inr p
            | Some 0 \<Rightarrow> Inl OSError
            | Some (Suc n) \<Rightarrow> Inr (p\<lparr>stdin_budget := Some n\<rparr>)))"

definition take_feed :: "popen \<Rightarrow> poll_event list \<times> popen" where
  "take_feed p = (case feeds p of [] \<Rightarrow> ([], p) | f # fs \<Rightarrow> (f, p\<lparr>feeds := fs\<rparr>))"

definition newline :: string where
  "newline = [CHR 0x0A]"

section \<open>close\<close>

text \<open>
  \<open>held\<close> says whether the caller already holds \<open>self._lock\<close>. The lock is a
  \<open>threading.Lock\<close>, which is not reentrant: \<open>with self._lock\<close> under a caller that holds
  it never returns, which is the value \<open>None\<close>. The actions of \<open>close\<close> on the process
  are recorded in the trace; the closing of the two output pipes in its \<open>finally\<close> clause
  is not.
\<close>

definition exit_line :: string where
  "exit_line = ''exit'' @ newline"

definition graceful_exit :: "popen \<Rightarrow> action list \<times> exn option" where
  "graceful_exit p =
     (if \<not> stdin_closed p then
        (case stdin_write p of
           Inl e \<Rightarrow> ([], Some e)
         | Inr p' \<Rightarrow>
             ([Write (pid p) exit_line, Close_stdin (pid p), Wait (pid p) 2],
              if exit_wait_ok p then None else Some TimeoutExpired))
      else ([Wait (pid p) 2], if exit_wait_ok p then None else Some TimeoutExpired))"

definition send_terminate :: "popen \<Rightarrow> action list \<times> exn option" where
  "send_terminate p =
     (if terminate_raises p then ([], Some OSError)
      else ([Terminate (pid p), Wait (pid p) 2],
            if term_wait_ok p then None else Some TimeoutExpired))"

definition send_kill :: "popen \<Rightarrow> action list \<times> exn option" where
  "send_kill p =
     ([Kill (pid p), Wait (pid p) 1], if kill_wait_ok p then None else Some TimeoutExpired)"

definition close_actions :: "popen \<Rightarrow> action list" where
  "close_actions p =
     (case graceful_exit p of
        (a1, None) \<Rightarrow> a1
      | (a1, Some e_graceful) \<Rightarrow>
          (case send_terminate p of
             (a2, None) \<Rightarrow> a1 @ a2
           | (a2, Some e_term) \<Rightarrow>
               (case send_kill p of (a3, e_kill) \<Rightarrow> a1 @ a2 @ a3)))"

definition close :: "bool \<Rightarrow> world \<Rightarrow> world option" where
  "close held w =
     (if held then None
      else (case bash_process w of
              None \<Rightarrow> Some w
            | Some p \<Rightarrow>
                if returncode p = None
                then Some (w\<lparr>bash_process := None, trace := trace w @ close_actions p\<rparr>)
                else Some w))"

section \<open>Starting a session\<close>

fun await_init :: "string \<Rightarrow> poll_event list \<Rightarrow> bool" where
  \<comment> \<open>the handshake loop; \<open>False\<close> when an exception leaves it\<close>
  "await_init m [] = True"
| "await_init m (Got s line # evs) = (if contains m line then True else await_init m evs)"
| "await_init m (Empty st # evs) = await_init m evs"
| "await_init m (Get_raised # evs) = False"

definition handshake :: "world \<Rightarrow> popen \<Rightarrow> world" where
  "handshake w p =
     (case time_ns w of
        (t, w1) \<Rightarrow>
          (case stdin_write p of
             Inl e \<Rightarrow> w1\<lparr>bash_process := None\<rparr>
           | Inr p1 \<Rightarrow>
               (case take_feed p1 of
                  (script, p2) \<Rightarrow>
                    if await_init (init_marker t) script
                    then w1\<lparr>bash_process := Some p2,
                            trace := trace w1 @ [Write (pid p) (''echo '' @ init_marker t @ newline)]\<rparr>
                    else w1\<lparr>bash_process := None,
                            trace := trace w1 @ [Write (pid p) (''echo '' @ init_marker t @ newline)]\<rparr>)))"

definition start_session :: "bool \<Rightarrow> world \<Rightarrow> world option" where
  "start_session held w =
     (if held then None
      else if running w then Some w
      else (case find_bash (host_env w) of
              None \<Rightarrow> Some (w\<lparr>bash_process := None\<rparr>)
            | Some bash_path \<Rightarrow>
                (case spawns w of
                   [] \<Rightarrow> Some (w\<lparr>bash_process := None\<rparr>)
                 | None # rest \<Rightarrow> Some (w\<lparr>bash_process := None, spawns := rest\<rparr>)
                 | Some p # rest \<Rightarrow>
                     Some (handshake
                             (w\<lparr>bash_process := Some p, spawns := rest,
                                trace := trace w @ [Spawn (pid p) bash_path]\<rparr>) p))))"

section \<open>Executing a command\<close>

text \<open>
  The value a call returns is a formatted message. Each constructor stands for one
  \<open>return\<close> statement of \<open>_execute_raw_command_in_session\<close> or \<open>_run\<close> and carries the
  values that statement puts into its message:
  \<^item> \<open>Restart_failed\<close>: the session could not be started or restarted (line 231);
  \<^item> \<open>Retry_write_failed e\<close>: the write failed again after the restart (line 261);
  \<^item> \<open>Restart_after_write_failed e\<close>: no session after the failed write (line 263);
  \<^item> \<open>Process_died out err\<close>: the process ended while the command ran (line 298);
  \<^item> \<open>Read_error\<close>: reading the queue raised (line 302);
  \<^item> \<open>Timed_out timeout out err\<close>: the command timed out (line 327);
  \<^item> \<open>Stderr_only err\<close>: the command error message (line 335);
  \<^item> \<open>Stdout_and_stderr out err\<close>: both texts, each under its label (line 336);
  \<^item> \<open>Stdout_text out\<close>: the standard output itself; \<open>No_output\<close>: the fixed text for a
    command without output (line 338);
  \<^item> \<open>Session_restarted\<close>, \<open>Session_restart_failed\<close>: the answers to
    \<open>terminate_session\<close> (lines 350 and 352);
  \<^item> \<open>Security_blocked command\<close>: the refusal of a dangerous command (line 376).
\<close>

datatype result =
    Restart_failed
  | Retry_write_failed exn
  | Restart_after_write_failed exn
  | Process_died string string
  | Read_error
  | Timed_out int string string
  | Stderr_only string
  | Stdout_and_stderr string string
  | Stdout_text string
  | No_output
  | Session_restarted
  | Session_restart_failed
  | Security_blocked string

datatype wait_outcome =
    Completed "string list" "string list"
  | Deadline "string list" "string list"
  | Died int "string list" "string list"
  | Read_failed

text \<open>The loop that waits for the marker (lines 271 to 302), on the outcomes of its polls.\<close>

fun await_marker ::
  "string \<Rightarrow> poll_event list \<Rightarrow> string list \<Rightarrow> string list \<Rightarrow> wait_outcome" where
  "await_marker m [] output_buffer stderr_buffer = Deadline output_buffer stderr_buffer"
| "await_marker m (Got s line # evs) output_buffer stderr_buffer =
     (if contains m line then
        (let line_content_before_marker = before_first m line
         in if strip line_content_before_marker \<noteq> [] then
              (if s = STDOUT
               then Completed (output_buffer @ [line_content_before_marker]) stderr_buffer
               else Completed output_buffer (stderr_buffer @ [line_content_before_marker]))
            else Completed output_buffer stderr_buffer)
      else if s = STDOUT then await_marker m evs (output_buffer @ [line]) stderr_buffer
      else await_marker m evs output_buffer (stderr_buffer @ [line]))"
| "await_marker m (Empty st # evs) output_buffer stderr_buffer =
     (case st of
        Some code \<Rightarrow> Died code output_buffer stderr_buffer
      | None \<Rightarrow> await_marker m evs output_buffer stderr_buffer)"
| "await_marker m (Get_raised # evs) output_buffer stderr_buffer = Read_failed"

text \<open>The recovery loop after a timeout (lines 314 to 323).\<close>

fun await_recovery ::
  "string \<Rightarrow> poll_event list \<Rightarrow> string list \<Rightarrow> string list \<Rightarrow> string list \<times> string list"
  where
  "await_recovery rm [] output_buffer stderr_buffer = (output_buffer, stderr_buffer)"
| "await_recovery rm (Got s line # evs) output_buffer stderr_buffer =
     (if contains rm line then (output_buffer, stderr_buffer)
      else if s = STDOUT
      then await_recovery rm evs (output_buffer @ [''[TIMEOUT_RECOVERY_OUTPUT] '' @ line])
             stderr_buffer
      else await_recovery rm evs output_buffer
             (stderr_buffer @ [''[TIMEOUT_RECOVERY_ERROR] '' @ line]))"
| "await_recovery rm (Empty st # evs) output_buffer stderr_buffer =
     await_recovery rm evs output_buffer stderr_buffer"
| "await_recovery rm (Get_raised # evs) output_buffer stderr_buffer =
     (output_buffer, stderr_buffer)"

definition ctrl_c :: string where
  "ctrl_c = [CHR 0x03]"

definition joined :: "string list \<Rightarrow> string" where
  \<comment> \<open>\<open>''.join(buffer).strip()\<close>\<close>
  "joined buffer = strip (concat buffer)"

definition compose_result :: "string list \<Rightarrow> string list \<Rightarrow> result" where
  "compose_result output_buffer stderr_buffer =
     (let stdout_result = joined output_buffer;
          stderr_result = joined stderr_buffer
      in if stderr_result \<noteq> [] then
           (if stdout_result = [] then Stderr_only stderr_result
            else Stdout_and_stderr stdout_result stderr_result)
         else if stdout_result \<noteq> [] then Stdout_text stdout_result
         else No_output)"

definition interrupt :: "world \<Rightarrow> popen \<Rightarrow> string \<Rightarrow> string list \<Rightarrow> string list \<Rightarrow>
    (string list \<times> string list) \<times> world" where
  \<comment> \<open>lines 307 to 325: the interrupt, the recovery marker and the recovery window\<close>
  "interrupt w p m output_buffer stderr_buffer =
     (case stdin_write p of
        Inl e \<Rightarrow> ((output_buffer, stderr_buffer), w\<lparr>bash_process := Some p\<rparr>)
      | Inr p1 \<Rightarrow>
          (case stdin_write p1 of
             Inl e \<Rightarrow>
               ((output_buffer, stderr_buffer),
                w\<lparr>bash_process := Some p1, trace := trace w @ [Write (pid p) ctrl_c]\<rparr>)
           | Inr p2 \<Rightarrow>
               (case take_feed p2 of
                  (script, p3) \<Rightarrow>
                    (await_recovery (recovery_marker m) script output_buffer stderr_buffer,
                     w\<lparr>bash_process := Some p3,
                       trace := trace w @
                         [Write (pid p) ctrl_c,
                          Write (pid p) (''echo '' @ recovery_marker m @ newline)]\<rparr>))))"

definition await_command :: "bool \<Rightarrow> world \<Rightarrow> popen \<Rightarrow> string \<Rightarrow> int \<Rightarrow>
    (result \<times> world) option" where
  \<comment> \<open>lines 266 to 338, once the command is written\<close>
  "await_command held w p m timeout =
     (case take_feed p of
        (script, p1) \<Rightarrow>
          (case await_marker m (if 0 < timeout then script else []) [] [] of
             Completed output_buffer stderr_buffer \<Rightarrow>
               Some (compose_result output_buffer stderr_buffer, w\<lparr>bash_process := Some p1\<rparr>)
           | Died code output_buffer stderr_buffer \<Rightarrow>
               (case close held (w\<lparr>bash_process := Some (p1\<lparr>returncode := Some code\<rparr>)\<rparr>) of
                  None \<Rightarrow> None
                | Some w1 \<Rightarrow>
                    Some (Process_died (joined output_buffer) (joined stderr_buffer), w1))
           | Read_failed \<Rightarrow> Some (Read_error, w\<lparr>bash_process := Some p1\<rparr>)
           | Deadline output_buffer stderr_buffer \<Rightarrow>
               (case interrupt w p1 m output_buffer stderr_buffer of
                  ((out, err), w1) \<Rightarrow> Some (Timed_out timeout (joined out) (joined err), w1))))"

definition send_command :: "bool \<Rightarrow> world \<Rightarrow> popen \<Rightarrow> string \<Rightarrow>
    ((result + popen) \<times> world) option" where
  \<comment> \<open>lines 247 to 263\<close>
  "send_command held w p command_to_send =
     (case stdin_write p of
        Inr p1 \<Rightarrow>
          Some (Inr p1, w\<lparr>bash_process := Some p1,
                           trace := trace w @ [Write (pid p) command_to_send]\<rparr>)
      | Inl e \<Rightarrow>
          (case close held w of
             None \<Rightarrow> None
           | Some w1 \<Rightarrow>
               (case start_session held w1 of
                  None \<Rightarrow> None
                | Some w2 \<Rightarrow>
                    (case bash_process w2 of
                       None \<Rightarrow> Some (Inl (Restart_after_write_failed e), w2)
                     | Some q \<Rightarrow>
                         if returncode q = None then
                           (case stdin_write q of
                              Inl e2 \<Rightarrow> Some (Inl (Retry_write_failed e2), w2)
                            | Inr q1 \<Rightarrow>
                                Some (Inr q1,
                                      w2\<lparr>bash_process := Some q1,
                                         trace := trace w2 @ [Write (pid q) command_to_send]\<rparr>))
                         else Some (Inl (Restart_after_write_failed e), w2)))))"

definition ensure_session :: "bool \<Rightarrow> world \<Rightarrow> world option" where
  \<comment> \<open>lines 226 to 229\<close>
  "ensure_session held w =
     (if running w then Some w
      else (case close held w of
              None \<Rightarrow> None
            | Some w1 \<Rightarrow> start_session held w1))"

definition command_text :: "string \<Rightarrow> string \<Rightarrow> string" where
  \<comment> \<open>\<open>f"{command}\necho {unique_end_marker}\n"\<close>\<close>
  "command_text command m = command @ newline @ ''echo '' @ m @ newline"

definition execute_raw :: "bool \<Rightarrow> world \<Rightarrow> string \<Rightarrow> int \<Rightarrow> (result \<times> world) option"
  where
  "execute_raw held w command timeout =
     (case ensure_session held w of
        None \<Rightarrow> None
      | Some w1 \<Rightarrow>
          (case bash_process w1 of
             None \<Rightarrow> Some (Restart_failed, w1)
           | Some p \<Rightarrow>
               if returncode p \<noteq> None then Some (Restart_failed, w1)
               else
                 (case time_ns w1 of
                    (t, w2) \<Rightarrow>
                      (let m = unique_end_marker t (getpid w2)
                       in case send_command held w2 p (command_text command m) of
                            None \<Rightarrow> None
                          | Some (Inl r, w3) \<Rightarrow> Some (r, w3)
                          | Some (Inr p1, w3) \<Rightarrow> await_command held w3 p1 m timeout))))"

text \<open>
  Two notions used to state what a call observes. \<open>marker_of w\<close> is the marker of the next
  command sent from \<open>w\<close> when its session runs. \<open>command_outcome w timeout\<close> is how the
  waiting loop of that command ends, when the session runs and its pipe accepts the
  command; it is \<open>None\<close> otherwise.
\<close>

definition marker_of :: "world \<Rightarrow> string" where
  "marker_of w = unique_end_marker (clock w (clock_reads w)) (getpid w)"

definition command_outcome :: "world \<Rightarrow> int \<Rightarrow> wait_outcome option" where
  "command_outcome w timeout =
     (case bash_process w of
        None \<Rightarrow> None
      | Some p \<Rightarrow>
          if returncode p \<noteq> None then None
          else (case stdin_write p of
                  Inl e \<Rightarrow> None
                | Inr p1 \<Rightarrow>
                    (case take_feed p1 of
                       (script, p2) \<Rightarrow>
                         Some (await_marker (marker_of w)
                                 (if 0 < timeout then script else []) [] []))))"


definition restarted :: "world \<Rightarrow> world option" where
  \<comment> \<open>the \<open>close\<close> and \<open>_start_session\<close> of lines 253 and 254, after the marker was made\<close>
  "restarted w =
     (case close False (w\<lparr>clock_reads := Suc (clock_reads w)\<rparr>) of
        None \<Rightarrow> None
      | Some w1 \<Rightarrow> start_session False w1)"

section \<open>The security check\<close>

definition dangerous_keywords :: "string list" where
  "dangerous_keywords =
     [''rm '', ''mkfs'', ''fdisk'', ''dd'', ''shutdown'', ''reboot'', ''mv '',
      ''>'', ''|'', ''&&'', '';'']"

definition dangerous_prefixes :: "string list" where
  "dangerous_prefixes = [''rm '', ''mkfs'', ''fdisk'', ''dd'', ''shutdown'', ''reboot'', ''mv '']"

definition is_dangerous_command_type :: "string \<Rightarrow> bool" where
  \<comment> \<open>lines 358 to 372, on \<open>command_lower_stripped\<close>\<close>
  "is_dangerous_command_type cls =
     (if list_ex (startswith cls) dangerous_prefixes then
        (if startswith cls ''rm '' \<and> (contains ''-i'' cls \<or> contains ''--interactive'' cls)
         then False
         else if startswith cls ''mv '' \<and> (contains ''-i'' cls \<or> contains ''--interactive'' cls)
         then False
         else True)
      else False)"

text \<open>
  \<open>_run\<close> takes the lock and calls \<open>close\<close>, \<open>_start_session\<close> and
  \<open>_execute_raw_command_in_session\<close> while it holds it.
\<close>

definition run :: "world \<Rightarrow> string \<Rightarrow> (result \<times> world) option" where
  "run w command =
     (if strip command = ''terminate_session'' then
        (case close True w of
           None \<Rightarrow> None
         | Some w1 \<Rightarrow>
             (case start_session True w1 of
                None \<Rightarrow> None
              | Some w2 \<Rightarrow>
                  Some (if running w2 then Session_restarted else Session_restart_failed, w2)))
      else if is_dangerous_command_type (strip (lower command))
      then Some (Security_blocked (strip command), w)
      else execute_raw True w command 20)"

section \<open>Example hosts and sessions\<close>

text \<open>
  Concrete inputs on which the theorems below are instantiated: a Unix host on which every
  path exists and is executable and \<open>which bash\<close> prints \<open>/opt/bin/bash\<close>, and a running
  session with process id 7 whose pipe accepts every write.
\<close>

definition example_host :: host where
  "example_host =
     \<lparr>bash_exec_path = None, path_exists = (\<lambda>p. True), path_executable = (\<lambda>p. True),
      win32 = False, locate = Locate_ran 0 (''/opt/bin/bash'' @ newline),
      probe = Probe_missing\<rparr>"

definition example_process :: "nat \<Rightarrow> poll_event list list \<Rightarrow> popen" where
  "example_process n fs =
     \<lparr>pid = n, returncode = None, stdin_closed = False, stdin_budget = None,
      exit_wait_ok = True, terminate_raises = False, term_wait_ok = True,
      kill_wait_ok = True, feeds = fs\<rparr>"

text \<open>
  The process a restart obtains: it answers the handshake and then prints one line and the
  marker of the command.
\<close>

definition fresh_process :: popen where
  "fresh_process =
     example_process 8
       [[Got STDOUT (init_marker 6 @ newline)],
        [Got STDOUT (''file.txt'' @ newline), Got STDOUT (unique_end_marker 5 42 @ newline)]]"

definition example_world :: "popen \<Rightarrow> world" where
  "example_world p =
     \<lparr>host_env = example_host, getpid = 42, clock = (\<lambda>n. 5 + n), clock_reads = 0,
      spawns = [Some fresh_process], bash_process = Some p, trace = []\<rparr>"

text \<open>A session on which the command prints the given lines and then the marker.\<close>

definition completing_world :: "poll_event list \<Rightarrow> world" where
  "completing_world lines =
     example_world
       (example_process 7 [lines @ [Got STDOUT (unique_end_marker 5 42 @ newline)]])"


text \<open>
  A session whose process prints one line and then ends with the given exit status while
  the command is awaited, and a session whose pipe is broken when the command is written.
\<close>

definition crashing_world :: "int \<Rightarrow> world" where
  "crashing_world code =
     example_world (example_process 7 [[Got STDOUT (''partial'' @ newline), Empty (Some code)]])"

definition broken_pipe_world :: world where
  "broken_pipe_world = example_world ((example_process 7 [])\<lparr>stdin_budget := Some 0\<rparr>)"




section \<open>Properties of the string functions\<close>

lemma startswith_iff: "startswith s p \<longleftrightarrow> (\<exists>r. s = p @ r)"
  by (induction s p rule: startswith.induct) auto

lemma find_first_Some: "find_first sub s = Some (b, a) \<Longrightarrow> s = b @ sub @ a"
proof (induction s arbitrary: b a)
  case Nil
  then show ?case by (simp split: if_splits)
next
  case (Cons c s)
  show ?case
  proof (cases "startswith (c # s) sub")
    case True
    with Cons.prems have ba: "b = []" "a = drop (length sub) (c # s)" by simp_all
    from True have "c # s = sub @ drop (length sub) (c # s)" by (auto simp: startswith_iff)
    then show ?thesis unfolding ba by simp
  next
    case False
    with Cons.prems obtain b0 where "find_first sub s = Some (b0, a)" "b = c # b0"
      by (auto split: option.splits)
    with Cons.IH show ?thesis by simp
  qed
qed

lemma find_first_least:
  "find_first sub s = Some (b, a) \<Longrightarrow> s = b' @ sub @ a' \<Longrightarrow> length b \<le> length b'"
proof (induction s arbitrary: b a b')
  case Nil
  then show ?case by (simp split: if_splits)
next
  case (Cons c s)
  show ?case
  proof (cases "startswith (c # s) sub")
    case True
    with Cons.prems(1) have "b = []" by simp
    then show ?thesis by simp
  next
    case False
    with Cons.prems(1) obtain b0 where b0: "find_first sub s = Some (b0, a)" "b = c # b0"
      by (auto split: option.splits)
    from False Cons.prems(2) have "b' \<noteq> []" by (auto simp: startswith_iff)
    then obtain b1 where b1: "b' = c # b1" using Cons.prems(2) by (cases b') auto
    with Cons.prems(2) have "s = b1 @ sub @ a'" by simp
    from Cons.IH [OF b0(1) this] b0 b1 show ?thesis by simp
  qed
qed

lemma find_first_occurs: "s = b' @ sub @ a' \<Longrightarrow> find_first sub s \<noteq> None"
proof (induction s arbitrary: b')
  case Nil
  then show ?case by simp
next
  case (Cons c s)
  show ?case
  proof (cases "startswith (c # s) sub")
    case True
    then show ?thesis by simp
  next
    case False
    with Cons.prems have "b' \<noteq> []" by (auto simp: startswith_iff)
    then obtain b1 where "b' = c # b1" using Cons.prems by (cases b') auto
    with Cons.prems have "s = b1 @ sub @ a'" by simp
    from Cons.IH [OF this] False show ?thesis by (auto split: option.splits)
  qed
qed

lemma contains_iff: "contains sub s \<longleftrightarrow> (\<exists>b a. s = b @ sub @ a)"
  unfolding contains_def using find_first_occurs find_first_Some by fastforce

lemma strip_empty_iff: "strip s = [] \<longleftrightarrow> (\<forall>c\<in>set s. isspace c)"
proof -
  have "strip s = [] \<longleftrightarrow> dropWhile isspace (rev (dropWhile isspace s)) = []"
    by (simp add: strip_def rstrip_def lstrip_def)
  also have "\<dots> \<longleftrightarrow> (\<forall>c\<in>set (dropWhile isspace s). isspace c)"
    by (simp add: dropWhile_eq_Nil_conv)
  also have "\<dots> \<longleftrightarrow> (\<forall>c\<in>set s. isspace c)"
  proof
    assume a: "\<forall>c\<in>set (dropWhile isspace s). isspace c"
    have "dropWhile isspace s = []"
    proof (rule ccontr)
      assume "dropWhile isspace s \<noteq> []"
      then have "\<not> isspace (hd (dropWhile isspace s))" by (rule hd_dropWhile)
      moreover have "hd (dropWhile isspace s) \<in> set (dropWhile isspace s)"
        using \<open>dropWhile isspace s \<noteq> []\<close> by simp
      ultimately show False using a by blast
    qed
    then show "\<forall>c\<in>set s. isspace c" by (simp add: dropWhile_eq_Nil_conv)
  next
    assume "\<forall>c\<in>set s. isspace c"
    then show "\<forall>c\<in>set (dropWhile isspace s). isspace c"
      using set_dropWhileD by fastforce
  qed
  finally show ?thesis .
qed

lemma of_char_lower: "of_char (char_of (n + 32) :: char) = (n + 32) mod (256::nat)"
  by (simp add: of_char_of)

lemma isspace_lower_char: "isspace (lower_char c) = isspace c"
proof -
  have "(of_char c :: nat) < 256" by simp
  then show ?thesis
    unfolding lower_char_def isspace_def Let_def
    by (auto simp: of_char_of)
qed

lemma dropWhile_isspace_lower: "dropWhile isspace (map lower_char s) = map lower_char (dropWhile isspace s)"
  by (induction s) (auto simp: isspace_lower_char)

lemma strip_lower: "strip (lower s) = lower (strip s)"
  by (simp add: strip_def lstrip_def rstrip_def lower_def rev_map dropWhile_isspace_lower)

lemma digit_val_digit: "d < 10 \<Longrightarrow> digit_val (digit_char d) = d"
  by (simp add: digit_val_def digit_char_def)

lemma nat_of_str_snoc: "nat_of_str (s @ [c]) = 10 * nat_of_str s + digit_val c"
  by (simp add: nat_of_str_def)

lemma nat_of_str_nat: "nat_of_str (str_nat n) = n"
proof (induction n rule: str_nat.induct)
  case (1 n)
  show ?case
  proof (cases "n < 10")
    case True
    then show ?thesis by (simp add: str_nat.simps [of n] nat_of_str_def digit_val_digit)
  next
    case False
    with 1 show ?thesis
      by (simp add: str_nat.simps [of n] nat_of_str_snoc digit_val_digit)
  qed
qed

lemma str_nat_inj: "str_nat a = str_nat b \<Longrightarrow> a = b"
  by (metis nat_of_str_nat)

lemma digit_char_not_underscore: "d < 10 \<Longrightarrow> digit_char d \<noteq> CHR ''_''"
proof
  assume d: "d < 10" and eq: "digit_char d = CHR ''_''"
  from eq have "(of_char (digit_char d) :: nat) = of_char CHR ''_''" by simp
  with d show False by (simp add: digit_char_def of_char_of)
qed

lemma underscore_notin_str_nat: "CHR ''_'' \<notin> set (str_nat n)"
proof (induction n rule: str_nat.induct)
  case (1 n)
  show ?case
  proof (cases "n < 10")
    case True
    then show ?thesis using digit_char_not_underscore [of n] by (auto simp: str_nat.simps [of n])
  next
    case False
    then show ?thesis using 1 digit_char_not_underscore [of "n mod 10"]
      by (auto simp: str_nat.simps [of n])
  qed
qed

lemma before_separator_unique:
  assumes "c \<notin> set xs" "c \<notin> set ys" "xs @ c # r = ys @ c # r'"
  shows "xs = ys"
proof -
  have "takeWhile (\<lambda>x. x \<noteq> c) (xs @ c # r) = xs" using assms(1) by (auto simp: takeWhile_tail)
  moreover have "takeWhile (\<lambda>x. x \<noteq> c) (ys @ c # r') = ys" using assms(2) by (auto simp: takeWhile_tail)
  ultimately show ?thesis using assms(3) by simp
qed

lemma unique_end_marker_inj_time:
  assumes "unique_end_marker t1 p1 = unique_end_marker t2 p2"
  shows "t1 = t2"
proof -
  from assms have "str_nat t1 @ CHR ''_'' # (str_nat p1 @ ''__'') = str_nat t2 @ CHR ''_'' # (str_nat p2 @ ''__'')"
    by (simp add: unique_end_marker_def)
  then have "str_nat t1 = str_nat t2"
    by (rule before_separator_unique [OF underscore_notin_str_nat underscore_notin_str_nat])
  then show ?thesis by (rule str_nat_inj)
qed

section \<open>Markers and the marker line\<close>

text \<open>
  C3: two completion markers built from readings of the nanosecond clock of which the
  second is strictly later are never equal, whatever the two process ids are (the same
  process id in particular).
\<close>

theorem marker_uniqueness:
  "t1 < t2 \<Longrightarrow> unique_end_marker t1 p1 \<noteq> unique_end_marker t2 p2"
  using unique_end_marker_inj_time [of t1 p1 t2 p2] by auto

theorem marker_uniqueness_witness:
  "(5::nat) < 6 \<and> unique_end_marker 5 42 \<noteq> unique_end_marker 6 42"
  using marker_uniqueness [of 5 6 42 42] by simp

lemma before_first_eq:
  assumes "line = b @ m @ a"
      and "\<forall>b' a'. line = b' @ m @ a' \<longrightarrow> length b \<le> length b'"
  shows "contains m line" and "before_first m line = b"
proof -
  from assms(1) show c: "contains m line" by (auto simp: contains_iff)
  then obtain b0 a0 where f: "find_first m line = Some (b0, a0)"
    by (auto simp: contains_def)
  then have l: "line = b0 @ m @ a0" by (rule find_first_Some)
  from find_first_least [OF f assms(1)] have "length b0 \<le> length b" .
  moreover from assms(2) l have "length b \<le> length b0" by blast
  ultimately have "length b0 = length b" by simp
  with l assms(1) have "b0 = b" by (metis append_eq_append_conv)
  with f show "before_first m line = b" by (simp add: before_first_def)
qed

text \<open>
  C10: for a queue line in which the (non-empty) marker occurs, with \<open>b\<close> the text
  before its first occurrence, the waiting loop stops; \<open>b\<close> is appended to the buffer of
  the line's stream when it has a character that is not white space, and is dropped when
  it has none. The text after the marker and the later queue entries do not enter the
  result.
\<close>

theorem marker_line_split:
  assumes "m \<noteq> []"
      and "line = b @ m @ a"
      and "\<forall>b' a'. line = b' @ m @ a' \<longrightarrow> length b \<le> length b'"
  shows "await_marker m (Got s line # evs) out err =
           Completed (if s = STDOUT \<and> (\<exists>c\<in>set b. \<not> isspace c) then out @ [b] else out)
                     (if s = STDERR \<and> (\<exists>c\<in>set b. \<not> isspace c) then err @ [b] else err)"
proof -
  note bf = before_first_eq [OF assms(2) assms(3)]
  have "strip b \<noteq> [] \<longleftrightarrow> (\<exists>c\<in>set b. \<not> isspace c)" by (simp add: strip_empty_iff)
  with bf show ?thesis by (cases s) (simp_all add: Let_def)
qed

lemma find_first_is_first:
  "find_first m line = Some (b, a) \<Longrightarrow> \<forall>b' a'. line = b' @ m @ a' \<longrightarrow> length b \<le> length b'"
  using find_first_least by blast

theorem marker_line_split_witness:
  "await_marker ''MARK'' (Got STDOUT ''abcMARKxyzMARK'' # [Got STDOUT ''later'']) [''o''] [''e''] =
     Completed [''o'', ''abc''] [''e''] \<and>
   await_marker ''MARK'' (Got STDERR ''  MARK tail'' # []) [''o''] [''e''] = Completed [''o''] [''e'']"
proof -
  have f1: "find_first ''MARK'' ''abcMARKxyzMARK'' = Some (''abc'', ''xyzMARK'')" by code_simp
  have f2: "find_first ''MARK'' ''  MARK tail'' = Some (''  '', '' tail'')" by code_simp
  have s1: "(\<exists>c\<in>set ''abc''. \<not> isspace c) = True" by code_simp
  have s2: "(\<exists>c\<in>set ''  ''. \<not> isspace c) = False" by code_simp
  have "await_marker ''MARK'' (Got STDOUT ''abcMARKxyzMARK'' # [Got STDOUT ''later'']) [''o''] [''e''] =
     Completed [''o'', ''abc''] [''e'']"
    using marker_line_split [of "''MARK''" "''abcMARKxyzMARK''" "''abc''" "''xyzMARK''" STDOUT "[Got STDOUT ''later'']" "[''o'']" "[''e'']"]
      find_first_is_first [OF f1] s1 by simp
  moreover have "await_marker ''MARK'' (Got STDERR ''  MARK tail'' # []) [''o''] [''e''] = Completed [''o''] [''e'']"
    using marker_line_split [of "''MARK''" "''  MARK tail''" "''  ''" "'' tail''" STDERR "[]" "[''o'']" "[''e'']"]
      find_first_is_first [OF f2] s2 by simp
  ultimately show ?thesis by simp
qed

section \<open>The security check: what is refused and what is forwarded\<close>

lemma compose_result_not_blocked: "compose_result out err \<noteq> Security_blocked x"
  by (simp add: compose_result_def Let_def)

lemma await_command_not_blocked:
  "await_command held w p m timeout = Some (r, w') \<Longrightarrow> r \<noteq> Security_blocked x"
  by (auto simp: await_command_def compose_result_not_blocked
           split: prod.splits wait_outcome.splits option.splits)

lemma send_command_not_blocked:
  "send_command held w p text = Some (Inl r, w') \<Longrightarrow> r \<noteq> Security_blocked x"
  by (auto simp: send_command_def split: sum.splits option.splits if_splits)

lemma execute_raw_not_blocked:
  "execute_raw held w command timeout = Some (r, w') \<Longrightarrow> r \<noteq> Security_blocked x"
  by (auto simp: execute_raw_def Let_def
           dest: await_command_not_blocked send_command_not_blocked
           split: option.splits if_splits prod.splits sum.splits)

lemma terminate_session_not_dangerous:
  "strip command = ''terminate_session'' \<Longrightarrow> dp \<in> set dangerous_prefixes \<Longrightarrow>
     \<not> startswith (strip (lower command)) dp"
proof -
  assume a: "strip command = ''terminate_session''" and d: "dp \<in> set dangerous_prefixes"
  have "lower ''terminate_session'' = ''terminate_session''" by code_simp
  with a have "strip (lower command) = ''terminate_session''" by (simp add: strip_lower)
  with d show ?thesis by (auto simp: dangerous_prefixes_def)
qed

text \<open>
  What the check of \<open>_run\<close> does with a command whose lowered and stripped text starts with
  one of the entries of \<open>dangerous_prefixes\<close>: the command is refused and the world stays
  as it was, unless the entry is \<open>rm\<close> or \<open>mv\<close> followed by a space and the text contains
  \<open>-i\<close> or \<open>--interactive\<close> somewhere; then the command goes to the session.
\<close>

lemma prefix_check:
  assumes "dp \<in> set dangerous_prefixes"
      and "startswith (strip (lower command)) dp"
  shows "(\<not> ((dp = ''rm '' \<or> dp = ''mv '') \<and>
             (contains ''-i'' (strip (lower command)) \<or>
              contains ''--interactive'' (strip (lower command)))) \<longrightarrow>
            run w command = Some (Security_blocked (strip command), w)) \<and>
         ((dp = ''rm '' \<or> dp = ''mv '') \<and>
            (contains ''-i'' (strip (lower command)) \<or>
             contains ''--interactive'' (strip (lower command))) \<longrightarrow>
            run w command = execute_raw True w command 20)"
proof -
  define cls where "cls = strip (lower command)"
  from assms have nt: "strip command \<noteq> ''terminate_session''"
    using terminate_session_not_dangerous by blast
  from assms have ex: "list_ex (startswith cls) dangerous_prefixes"
    by (auto simp: list_ex_iff cls_def)
  from assms have rm: "startswith cls ''rm '' \<longleftrightarrow> dp = ''rm ''"
    by (auto simp: dangerous_prefixes_def cls_def [symmetric] startswith_iff)
  from assms have mv: "startswith cls ''mv '' \<longleftrightarrow> dp = ''mv ''"
    by (auto simp: dangerous_prefixes_def cls_def [symmetric] startswith_iff)
  show ?thesis
    unfolding cls_def [symmetric]
    using nt ex rm mv by (auto simp: run_def is_dangerous_command_type_def cls_def [symmetric])
qed

text \<open>
  C1: an \<open>rm\<close> command without the interactive flag is to be refused and nothing of it
  is to reach the subprocess. The code falls short of this on two kinds of input. In
  \<open>rm -rf /tmp/my-important\<close> the characters \<open>-i\<close> occur inside a file name, and in the
  second command a tab, not a space, follows \<open>rm\<close>. On a running session \<open>_run\<close> writes
  both commands to the subprocess and returns the result of a command without output.
  \<open>rm -rf /\<close> is refused and nothing is written.
\<close>

theorem rm_without_flag_forwarded:
  "map_option fst (run (completing_world []) ''rm -rf /tmp/my-important'') = Some No_output \<and>
   map_option (trace \<circ> snd) (run (completing_world []) ''rm -rf /tmp/my-important'') =
     Some [Write 7 ''rm -rf /tmp/my-important\<newline>echo __END_OF_COMMAND_OUTPUT_5_42__\<newline>''] \<and>
   map_option fst (run (completing_world []) (''rm'' @ [CHR 0x09] @ ''-rf /'')) = Some No_output \<and>
   map_option (trace \<circ> snd) (run (completing_world []) (''rm'' @ [CHR 0x09] @ ''-rf /'')) =
     Some [Write 7 (''rm'' @ [CHR 0x09] @
                    ''-rf /\<newline>echo __END_OF_COMMAND_OUTPUT_5_42__\<newline>'')] \<and>
   map_option fst (run (completing_world []) ''rm -rf /'') = Some (Security_blocked ''rm -rf /'') \<and>
   map_option (trace \<circ> snd) (run (completing_world []) ''rm -rf /'') = Some []"
  by code_simp

text \<open>
  C9: a command whose lowered and stripped text starts with none of the seven refused
  prefixes is never answered with the refusal, whatever else the text contains; the list
  \<open>dangerous_keywords\<close> plays no part.
\<close>

theorem no_block_without_prefix:
  assumes "\<forall>dp\<in>set dangerous_prefixes. \<not> startswith (strip (lower command)) dp"
  shows "run w command \<noteq> Some (Security_blocked x, w')"
proof
  assume r: "run w command = Some (Security_blocked x, w')"
  from assms have nd: "\<not> is_dangerous_command_type (strip (lower command))"
    by (simp add: is_dangerous_command_type_def list_ex_iff)
  show False
  proof (cases "strip command = ''terminate_session''")
    case True
    with r show False by (simp add: run_def close_def)
  next
    case False
    with r nd have "execute_raw True w command 20 = Some (Security_blocked x, w')"
      by (simp add: run_def)
    then show False using execute_raw_not_blocked by blast
  qed
qed

theorem no_block_without_prefix_witness:
  "run (example_world (example_process 7 [])) ''cd /tmp && rm -rf *'' \<noteq>
     Some (Security_blocked ''cd /tmp && rm -rf *'', example_world (example_process 7 []))"
proof -
  have h: "\<forall>dp\<in>set dangerous_prefixes. \<not> startswith (strip (lower ''cd /tmp && rm -rf *'')) dp"
    by code_simp
  show ?thesis using no_block_without_prefix [OF h] by simp
qed

section \<open>What a call returns\<close>

lemma execute_raw_running:
  assumes "bash_process w = Some p" "returncode p = None" "stdin_write p = Inr p1"
  shows "execute_raw held w command timeout =
           await_command held
             ((w\<lparr>clock_reads := Suc (clock_reads w)\<rparr>)
                \<lparr>bash_process := Some p1,
                  trace := trace w @ [Write (pid p) (command_text command (marker_of w))]\<rparr>)
             p1 (marker_of w) timeout"
  using assms
  by (simp add: execute_raw_def ensure_session_def running_def time_ns_def send_command_def
        Let_def marker_of_def)

lemma command_outcome_SomeD:
  assumes "command_outcome w timeout = Some oc"
  obtains p p1 where "bash_process w = Some p" "returncode p = None" "stdin_write p = Inr p1"
    "oc = await_marker (marker_of w) (if 0 < timeout then fst (take_feed p1) else []) [] []"
  using assms
  by (auto simp: command_outcome_def split: option.splits if_splits sum.splits prod.splits)

lemma stdin_write_fields:
  "stdin_write p = Inr p1 \<Longrightarrow>
     pid p1 = pid p \<and> returncode p1 = returncode p \<and> feeds p1 = feeds p \<and>
     stdin_closed p1 = stdin_closed p"
  by (auto simp: stdin_write_def split: if_splits option.splits nat.splits)

lemma take_feed_fields:
  "take_feed p = (script, p1) \<Longrightarrow>
     pid p1 = pid p \<and> returncode p1 = returncode p \<and> stdin_closed p1 = stdin_closed p \<and>
     stdin_budget p1 = stdin_budget p"
  by (auto simp: take_feed_def split: list.splits)

lemma await_recovery_extends:
  "\<exists>xs ys. await_recovery rm evs out err = (out @ xs, err @ ys)"
proof (induction evs arbitrary: out err)
  case Nil
  show ?case by simp
next
  case (Cons ev evs)
  have o: "\<exists>xs ys. await_recovery rm evs (out @ [a]) err = (out @ xs, err @ ys)" for a
    using Cons.IH [of "out @ [a]" err] by (metis append.assoc)
  have e: "\<exists>xs ys. await_recovery rm evs out (err @ [a]) = (out @ xs, err @ ys)" for a
    using Cons.IH [of out "err @ [a]"] by (metis append.assoc)
  show ?case
  proof (cases ev)
    case (Got s line)
    then show ?thesis using o e by (cases "contains rm line"; cases s) auto
  next
    case (Empty st)
    then show ?thesis using Cons.IH by simp
  next
    case Get_raised
    then show ?thesis by simp
  qed
qed

lemma interrupt_effect:
  assumes "interrupt w p m out err = ((o2, e2), w1)"
  shows "\<exists>xs ys p' sent. o2 = out @ xs \<and> e2 = err @ ys \<and>
           bash_process w1 = Some p' \<and> pid p' = pid p \<and> returncode p' = returncode p \<and>
           spawns w1 = spawns w \<and> trace w1 = trace w @ sent \<and>
           prefix sent [Write (pid p) ctrl_c,
                        Write (pid p) (''echo '' @ recovery_marker m @ newline)] \<and>
           (stdin_budget p = None \<and> \<not> stdin_closed p \<longrightarrow>
              sent = [Write (pid p) ctrl_c,
                      Write (pid p) (''echo '' @ recovery_marker m @ newline)] \<and>
              (o2, e2) = await_recovery (recovery_marker m) (fst (take_feed p)) out err)"
proof (cases "stdin_write p")
  case (Inl e)
  with assms show ?thesis
    by (auto simp: interrupt_def stdin_write_def split: if_splits option.splits nat.splits)
next
  case (Inr p1)
  note p1 = this
  show ?thesis
  proof (cases "stdin_write p1")
    case (Inl e)
    with p1 assms have "o2 = out" "e2 = err"
      "w1 = w\<lparr>bash_process := Some p1, trace := trace w @ [Write (pid p) ctrl_c]\<rparr>"
      by (auto simp: interrupt_def)
    moreover from Inl p1 have "\<not> (stdin_budget p = None \<and> \<not> stdin_closed p)"
      by (auto simp: stdin_write_def split: if_splits option.splits nat.splits)
    ultimately show ?thesis using stdin_write_fields [OF p1] by auto
  next
    case (Inr p2)
    obtain script p3 where tf: "take_feed p2 = (script, p3)" by (cases "take_feed p2")
    from p1 Inr tf assms have r: "(o2, e2) = await_recovery (recovery_marker m) script out err"
      "w1 = w\<lparr>bash_process := Some p3,
              trace := trace w @ [Write (pid p) ctrl_c,
                                  Write (pid p) (''echo '' @ recovery_marker m @ newline)]\<rparr>"
      by (auto simp: interrupt_def)
    from await_recovery_extends [of "recovery_marker m" script out err] r(1)
    obtain xs ys where xy: "o2 = out @ xs" "e2 = err @ ys" by auto
    have f: "pid p3 = pid p" "returncode p3 = returncode p"
      using stdin_write_fields [OF p1] stdin_write_fields [OF Inr] take_feed_fields [OF tf]
      by auto
    have s: "stdin_budget p = None \<and> \<not> stdin_closed p \<longrightarrow> script = fst (take_feed p)"
    proof
      assume a: "stdin_budget p = None \<and> \<not> stdin_closed p"
      with p1 have "p1 = p" by (simp add: stdin_write_def)
      with a Inr have "p2 = p" by (simp add: stdin_write_def)
      with tf show "script = fst (take_feed p)" by simp
    qed
    show ?thesis using r xy f s by auto
  qed
qed

text \<open>
  C2: when the waiting loop ends at the marker, with \<open>out\<close> and \<open>err\<close> the lines
  gathered from the two streams, the call returns: the error result carrying the standard
  error text when that text is not empty and the standard output text is; both texts,
  each under its label, when neither is empty; the fixed result for no output when both
  are empty; the standard output text otherwise. The texts are the joined and stripped
  buffers.
\<close>

theorem result_composition:
  assumes "command_outcome w timeout = Some (Completed out err)"
  shows "\<exists>r w'. execute_raw held w command timeout = Some (r, w') \<and>
           (joined err \<noteq> [] \<and> joined out = [] \<longrightarrow> r = Stderr_only (joined err)) \<and>
           (joined err \<noteq> [] \<and> joined out \<noteq> [] \<longrightarrow>
              r = Stdout_and_stderr (joined out) (joined err)) \<and>
           (joined err = [] \<and> joined out = [] \<longrightarrow> r = No_output) \<and>
           (joined err = [] \<and> joined out \<noteq> [] \<longrightarrow> r = Stdout_text (joined out))"
proof -
  from assms obtain p p1 where p: "bash_process w = Some p" "returncode p = None"
      "stdin_write p = Inr p1"
    and oc: "Completed out err =
      await_marker (marker_of w) (if 0 < timeout then fst (take_feed p1) else []) [] []"
    by (rule command_outcome_SomeD)
  obtain script p2 where tf: "take_feed p1 = (script, p2)" by (cases "take_feed p1")
  with oc have "await_marker (marker_of w) (if 0 < timeout then script else []) [] [] =
      Completed out err" by simp
  with tf have "await_command held
             ((w\<lparr>clock_reads := Suc (clock_reads w)\<rparr>)
                \<lparr>bash_process := Some p1,
                  trace := trace w @ [Write (pid p) (command_text command (marker_of w))]\<rparr>)
             p1 (marker_of w) timeout =
        Some (compose_result out err,
              ((w\<lparr>clock_reads := Suc (clock_reads w)\<rparr>)
                \<lparr>bash_process := Some p1,
                  trace := trace w @ [Write (pid p) (command_text command (marker_of w))]\<rparr>)
                \<lparr>bash_process := Some p2\<rparr>)"
    by (simp add: await_command_def)
  then show ?thesis
    unfolding execute_raw_running [OF p]
    by (simp add: compose_result_def Let_def)
qed

theorem result_composition_witness:
  "map_option fst (execute_raw True (completing_world [Got STDERR ''oops\<newline>'']) ''ls /x'' 20) =
     Some (Stderr_only ''oops'') \<and>
   map_option fst (execute_raw True
       (completing_world [Got STDOUT ''hi\<newline>'', Got STDERR ''warn\<newline>'']) ''make'' 20) =
     Some (Stdout_and_stderr ''hi'' ''warn'') \<and>
   map_option fst (execute_raw True (completing_world []) ''true'' 20) = Some No_output \<and>
   map_option fst (execute_raw True (completing_world [Got STDOUT ''hello\<newline>''])
       ''echo hello'' 20) = Some (Stdout_text ''hello'')"
proof -
  have h1: "command_outcome (completing_world [Got STDERR ''oops\<newline>'']) 20 =
      Some (Completed [] [''oops\<newline>''])" by code_simp
  have h2: "command_outcome
      (completing_world [Got STDOUT ''hi\<newline>'', Got STDERR ''warn\<newline>'']) 20 =
      Some (Completed [''hi\<newline>''] [''warn\<newline>''])" by code_simp
  have h3: "command_outcome (completing_world []) 20 = Some (Completed [] [])" by code_simp
  have h4: "command_outcome (completing_world [Got STDOUT ''hello\<newline>'']) 20 =
      Some (Completed [''hello\<newline>''] [])" by code_simp
  have j: "joined [] = []" "joined [''oops\<newline>''] = ''oops''"
    "joined [''hi\<newline>''] = ''hi''" "joined [''warn\<newline>''] = ''warn''"
    "joined [''hello\<newline>''] = ''hello''" by code_simp+
  have "map_option fst (execute_raw True (completing_world [Got STDERR ''oops\<newline>''])
      ''ls /x'' 20) = Some (Stderr_only ''oops'')"
    using result_composition [OF h1, of True "''ls /x''"] unfolding j by auto
  moreover have "map_option fst (execute_raw True
       (completing_world [Got STDOUT ''hi\<newline>'', Got STDERR ''warn\<newline>'']) ''make'' 20) =
     Some (Stdout_and_stderr ''hi'' ''warn'')"
    using result_composition [OF h2, of True "''make''"] unfolding j by auto
  moreover have "map_option fst (execute_raw True (completing_world []) ''true'' 20) =
      Some No_output"
    using result_composition [OF h3, of True "''true''"] unfolding j by auto
  moreover have "map_option fst (execute_raw True (completing_world [Got STDOUT ''hello\<newline>''])
       ''echo hello'' 20) = Some (Stdout_text ''hello'')"
    using result_composition [OF h4, of True "''echo hello''"] unfolding j by auto
  ultimately show ?thesis by simp
qed

text \<open>
  The body of \<open>_execute_raw_command_in_session\<close> with the lock free: when the process is
  seen to have ended while the marker is awaited, the result is that of a process that
  died, with the joined and stripped buffers of the two streams.
\<close>

lemma crash_result_without_lock:
  assumes "command_outcome w timeout = Some (Died code out err)"
  shows "\<exists>w'. execute_raw False w command timeout =
           Some (Process_died (joined out) (joined err), w')"
proof -
  from assms obtain p p1 where p: "bash_process w = Some p" "returncode p = None"
      "stdin_write p = Inr p1"
    and oc: "Died code out err =
      await_marker (marker_of w) (if 0 < timeout then fst (take_feed p1) else []) [] []"
    by (rule command_outcome_SomeD)
  obtain script p2 where tf: "take_feed p1 = (script, p2)" by (cases "take_feed p1")
  with oc have "await_marker (marker_of w) (if 0 < timeout then script else []) [] [] =
      Died code out err" by simp
  with tf show ?thesis
    unfolding execute_raw_running [OF p]
    by (simp add: await_command_def close_def)
qed

text \<open>
  Two sessions that differ only in the exit status of the process, 1 and 137, give the
  same result: the result has no place for the exit status.
\<close>

lemma exit_status_not_in_result:
  "map_option fst (execute_raw False (crashing_world 1) ''ls'' 20) =
     map_option fst (execute_raw False (crashing_world 137) ''ls'' 20) \<and>
   command_outcome (crashing_world 1) 20 = Some (Died 1 [''partial\<newline>''] []) \<and>
   command_outcome (crashing_world 137) 20 = Some (Died 137 [''partial\<newline>''] [])"
  by code_simp



section \<open>Restart and retry\<close>

lemma close_False: "\<exists>w1. close False w = Some w1 \<and> spawns w1 = spawns w"
  by (auto simp: close_def split: option.splits)

lemma handshake_spawns: "spawns (handshake w p) = spawns w"
  by (auto simp: handshake_def time_ns_def split: sum.splits prod.splits)

lemma start_session_False:
  "\<exists>w2. start_session False w = Some w2 \<and> length (spawns w) \<le> Suc (length (spawns w2))"
  by (auto simp: start_session_def handshake_spawns split: option.splits list.splits)

lemma restarted_Some:
  "\<exists>w2. restarted w = Some w2 \<and> length (spawns w) \<le> Suc (length (spawns w2))"
proof -
  obtain w1 where w1: "close False (w\<lparr>clock_reads := Suc (clock_reads w)\<rparr>) = Some w1"
    "spawns w1 = spawns w"
    using close_False [of "w\<lparr>clock_reads := Suc (clock_reads w)\<rparr>"] by auto
  with start_session_False [of w1] show ?thesis by (auto simp: restarted_def)
qed

lemma await_command_spawns:
  assumes "await_command False w p m timeout = Some (r, w')"
  shows "spawns w' = spawns w"
proof -
  obtain script p1 where tf: "take_feed p = (script, p1)" by (cases "take_feed p")
  show ?thesis
  proof (cases "await_marker m (if 0 < timeout then script else []) [] []")
    case (Completed out err)
    with tf assms show ?thesis by (auto simp: await_command_def)
  next
    case (Deadline out err)
    obtain o2 e2 w1 where i: "interrupt w p1 m out err = ((o2, e2), w1)"
      by (metis prod.exhaust)
    from interrupt_effect [OF i] have "spawns w1 = spawns w" by blast
    with Deadline tf assms i show ?thesis by (auto simp: await_command_def)
  next
    case (Died code out err)
    with tf assms show ?thesis
      using close_False [of "w\<lparr>bash_process := Some (p1\<lparr>returncode := Some code\<rparr>)\<rparr>"]
      by (auto simp: await_command_def)
  next
    case Read_failed
    with tf assms show ?thesis by (auto simp: await_command_def)
  qed
qed

lemma execute_raw_write_failed:
  assumes "bash_process w = Some p" "returncode p = None" "stdin_write p = Inl e"
  shows "execute_raw False w command timeout =
           (case restarted w of
              None \<Rightarrow> None
            | Some w2 \<Rightarrow>
                (case bash_process w2 of
                   None \<Rightarrow> Some (Restart_after_write_failed e, w2)
                 | Some q \<Rightarrow>
                     if returncode q = None then
                       (case stdin_write q of
                          Inl e2 \<Rightarrow> Some (Retry_write_failed e2, w2)
                        | Inr q1 \<Rightarrow>
                            await_command False
                              (w2\<lparr>bash_process := Some q1,
                                  trace := trace w2 @
                                    [Write (pid q) (command_text command (marker_of w))]\<rparr>)
                              q1 (marker_of w) timeout)
                     else Some (Restart_after_write_failed e, w2)))"
  using assms
  by (auto simp: execute_raw_def ensure_session_def running_def time_ns_def send_command_def
        Let_def marker_of_def restarted_def
      split: option.splits sum.splits)

text \<open>
  The body of \<open>_execute_raw_command_in_session\<close> with the lock free. When the write of the
  command fails, the session is closed and started again once; if no session runs
  afterwards, the failure is the result; if the new session runs, the same text is written
  once more, and a failure of that write is the result; if it is accepted the call goes on
  to await the marker. The call uses up at most one outcome of \<open>subprocess.Popen\<close>. When
  the process is seen to have ended while the marker is awaited, the command has been
  written once, no process is started and no session runs afterwards.
\<close>

lemma restart_and_retry_without_lock:
  "(bash_process w = Some p \<and> returncode p = None \<and> stdin_write p = Inl e \<longrightarrow>
      (\<exists>w2. restarted w = Some w2) \<and>
      (restarted w = Some w2 \<and> \<not> running w2 \<longrightarrow>
         execute_raw False w command timeout = Some (Restart_after_write_failed e, w2)) \<and>
      (restarted w = Some w2 \<and> bash_process w2 = Some q \<and> returncode q = None \<and>
       stdin_write q = Inl e2 \<longrightarrow>
         execute_raw False w command timeout = Some (Retry_write_failed e2, w2)) \<and>
      (restarted w = Some w2 \<and> bash_process w2 = Some q \<and> returncode q = None \<and>
       stdin_write q = Inr q1 \<longrightarrow>
         execute_raw False w command timeout =
           await_command False
             (w2\<lparr>bash_process := Some q1,
                 trace := trace w2 @ [Write (pid q) (command_text command (marker_of w))]\<rparr>)
             q1 (marker_of w) timeout) \<and>
      (execute_raw False w command timeout = Some (r, w') \<longrightarrow>
         length (spawns w) \<le> Suc (length (spawns w')))) \<and>
   (command_outcome w timeout = Some (Died code out err) \<and> bash_process w = Some p \<longrightarrow>
      (\<exists>w''. execute_raw False w command timeout =
                Some (Process_died (joined out) (joined err), w'') \<and>
              spawns w'' = spawns w \<and>
              trace w'' = trace w @ [Write (pid p) (command_text command (marker_of w))] \<and>
              \<not> running w''))"
proof (intro conjI impI)
  assume a: "bash_process w = Some p \<and> returncode p = None \<and> stdin_write p = Inl e"
  then have ex: "execute_raw False w command timeout =
           (case restarted w of
              None \<Rightarrow> None
            | Some w2 \<Rightarrow>
                (case bash_process w2 of
                   None \<Rightarrow> Some (Restart_after_write_failed e, w2)
                 | Some q \<Rightarrow>
                     if returncode q = None then
                       (case stdin_write q of
                          Inl e2 \<Rightarrow> Some (Retry_write_failed e2, w2)
                        | Inr q1 \<Rightarrow>
                            await_command False
                              (w2\<lparr>bash_process := Some q1,
                                  trace := trace w2 @
                                    [Write (pid q) (command_text command (marker_of w))]\<rparr>)
                              q1 (marker_of w) timeout)
                     else Some (Restart_after_write_failed e, w2)))"
    by (intro execute_raw_write_failed) auto
  show "\<exists>w2. restarted w = Some w2" using restarted_Some by blast
  show "execute_raw False w command timeout = Some (Restart_after_write_failed e, w2)"
    if "restarted w = Some w2 \<and> \<not> running w2"
    using that unfolding ex by (auto simp: running_def split: option.splits)
  show "execute_raw False w command timeout = Some (Retry_write_failed e2, w2)"
    if "restarted w = Some w2 \<and> bash_process w2 = Some q \<and> returncode q = None \<and>
        stdin_write q = Inl e2"
    using that unfolding ex by auto
  show "execute_raw False w command timeout =
           await_command False
             (w2\<lparr>bash_process := Some q1,
                 trace := trace w2 @ [Write (pid q) (command_text command (marker_of w))]\<rparr>)
             q1 (marker_of w) timeout"
    if "restarted w = Some w2 \<and> bash_process w2 = Some q \<and> returncode q = None \<and>
        stdin_write q = Inr q1"
    using that unfolding ex by auto
  show "length (spawns w) \<le> Suc (length (spawns w'))"
    if r: "execute_raw False w command timeout = Some (r, w')"
  proof -
    obtain w3 where w3: "restarted w = Some w3" "length (spawns w) \<le> Suc (length (spawns w3))"
      using restarted_Some by blast
    have "spawns w' = spawns w3"
      using r w3(1) unfolding ex
      by (auto split: option.splits if_splits sum.splits dest: await_command_spawns)
    with w3(2) show ?thesis by simp
  qed
next
  assume c: "command_outcome w timeout = Some (Died code out err) \<and> bash_process w = Some p"
  then obtain p0 p1 where p: "bash_process w = Some p0" "returncode p0 = None"
      "stdin_write p0 = Inr p1"
    and oc: "Died code out err =
      await_marker (marker_of w) (if 0 < timeout then fst (take_feed p1) else []) [] []"
    by (auto elim: command_outcome_SomeD)
  from p(1) c have [simp]: "p0 = p" by simp
  obtain script p2 where tf: "take_feed p1 = (script, p2)" by (cases "take_feed p1")
  with oc have "await_marker (marker_of w) (if 0 < timeout then script else []) [] [] =
      Died code out err" by simp
  with tf show "\<exists>w''. execute_raw False w command timeout =
                Some (Process_died (joined out) (joined err), w'') \<and>
              spawns w'' = spawns w \<and>
              trace w'' = trace w @ [Write (pid p) (command_text command (marker_of w))] \<and>
              \<not> running w''"
    unfolding execute_raw_running [OF p]
    by (simp add: await_command_def close_def running_def)
qed

text \<open>
  With the lock free and a new process at hand, a process that ends while the marker is
  awaited leaves the command written once and nothing started.
\<close>

lemma crash_branch_without_retry:
  "map_option fst (execute_raw False (crashing_world 1) ''ls'' 20) =
     Some (Process_died ''partial'' []) \<and>
   map_option (trace \<circ> snd) (execute_raw False (crashing_world 1) ''ls'' 20) =
     Some [Write 7 ''ls\<newline>echo __END_OF_COMMAND_OUTPUT_5_42__\<newline>''] \<and>
   map_option (spawns \<circ> snd) (execute_raw False (crashing_world 1) ''ls'' 20) =
     Some [Some fresh_process]"
  by code_simp

section \<open>Calls made under the lock\<close>

text \<open>
  \<open>_run\<close> is the caller of \<open>_execute_raw_command_in_session\<close> and holds the lock while
  it runs. Every path of the body that reaches \<open>close\<close> or \<open>_start_session\<close> then waits
  for the lock it already holds and does not return.
\<close>

lemma close_held: "close True w = None"
  by (simp add: close_def)

lemma start_session_held: "start_session True w = None"
  by (simp add: start_session_def)

lemma execute_raw_held_not_running:
  "\<not> running w \<Longrightarrow> execute_raw True w command timeout = None"
  by (simp add: execute_raw_def ensure_session_def close_held)

lemma execute_raw_held_write_failed:
  assumes "bash_process w = Some p" "returncode p = None" "stdin_write p = Inl e"
  shows "execute_raw True w command timeout = None"
  using assms
  by (simp add: execute_raw_def ensure_session_def running_def time_ns_def send_command_def
        Let_def close_held)

lemma execute_raw_held_crash:
  assumes "command_outcome w timeout = Some (Died code out err)"
  shows "execute_raw True w command timeout = None"
proof -
  from assms obtain p p1 where p: "bash_process w = Some p" "returncode p = None"
      "stdin_write p = Inr p1"
    and oc: "Died code out err =
      await_marker (marker_of w) (if 0 < timeout then fst (take_feed p1) else []) [] []"
    by (rule command_outcome_SomeD)
  obtain script p2 where tf: "take_feed p1 = (script, p2)" by (cases "take_feed p1")
  with oc have "await_marker (marker_of w) (if 0 < timeout then script else []) [] [] =
      Died code out err" by simp
  with tf show ?thesis
    unfolding execute_raw_running [OF p]
    by (simp add: await_command_def close_held)
qed

text \<open>
  C4: a failed write of the command is to be followed by one restart of the session and
  one retry of the command, and a failure of the retry is to be returned. On a running
  session whose pipe is broken when the command is written, \<open>_run\<close> does not return: the
  \<open>close\<close> that begins the restart waits for the lock \<open>_run\<close> holds. The same body with
  the lock free restarts the session, writes the command again and returns its output.
\<close>

theorem write_failure_under_lock:
  "map_option stdin_write (bash_process broken_pipe_world) = Some (Inl OSError) \<and>
   running broken_pipe_world \<and>
   run broken_pipe_world ''ls'' = None \<and>
   map_option fst (execute_raw False broken_pipe_world ''ls'' 20) =
     Some (Stdout_text ''file.txt'')"
  by code_simp

text \<open>
  C5: when the process is seen to have ended while the marker is awaited, the call is to
  stop and return the result for a crash with what was gathered. On a session whose
  process prints one line and ends with exit status 1, \<open>_run\<close> does not return: the
  \<open>close\<close> before the \<open>return\<close> waits for the lock \<open>_run\<close> holds. The same body with the
  lock free returns the result for a process that died.
\<close>

theorem crash_under_lock:
  "command_outcome (crashing_world 1) 20 = Some (Died 1 [''partial\<newline>''] []) \<and>
   run (crashing_world 1) ''ls'' = None \<and>
   map_option fst (execute_raw False (crashing_world 1) ''ls'' 20) =
     Some (Process_died ''partial'' [])"
  by code_simp

section \<open>Shutdown\<close>




section \<open>The order of discovery\<close>







end
